theory Spec2Isabelle
  imports Complex_Main "HOL-Library.Word" "HOL-Library.Multiset"
begin

unbundle bit_operations_syntax

section \<open>Text\<close>

text \<open>
  JavaScript strings are modelled as lists of 8-bit characters: the model covers ASCII
  text, and the characters the CSV layer gives a meaning to are named here.
\<close>

definition DQ :: char where "DQ = CHR 0x22"
definition COMMA :: char where "COMMA = CHR 0x2C"
definition LF :: char where "LF = CHR 0x0A"
definition CR :: char where "CR = CHR 0x0D"

text \<open>\<^verbatim>\<open>Array.prototype.join\<close>: the empty array gives the empty string.\<close>

fun join :: "string \<Rightarrow> string list \<Rightarrow> string" where
  "join sep [] = []"
| "join sep [x] = x"
| "join sep (x # y # ys) = x @ sep @ join sep (y # ys)"

section \<open>CSV serializer\<close>

text \<open>
  \<^verbatim>\<open>function toCSV(rows) {
  return rows.map(r =>
    r.map(cell =>
      /[",\n]/.test(String(cell))
        ? '"' + String(cell).replace(/"/g,'""') + '"'
        : String(cell)
    ).join(",")
  ).join("\n");
  }\<close>
  The cells are strings already, so \<^verbatim>\<open>String(cell)\<close> is the cell.
\<close>

definition needsQuote :: "string \<Rightarrow> bool" where
  "needsQuote cell = (DQ \<in> set cell \<or> COMMA \<in> set cell \<or> LF \<in> set cell)"

definition doubleQuotes :: "string \<Rightarrow> string" where
  "doubleQuotes cell = concat (map (\<lambda>c. if c = DQ then [DQ, DQ] else [c]) cell)"

definition csvCell :: "string \<Rightarrow> string" where
  "csvCell cell = (if needsQuote cell then [DQ] @ doubleQuotes cell @ [DQ] else cell)"

definition csvLine :: "string list \<Rightarrow> string" where
  "csvLine r = join [COMMA] (map csvCell r)"

definition toCSV :: "string list list \<Rightarrow> string" where
  "toCSV rows = join [LF] (map csvLine rows)"

section \<open>CSV tokenizer\<close>

text \<open>
  \<^verbatim>\<open>function parseCSVStream(text) {
  const rows = [], len = text.length; let i = 0, row = [], cur = "", inQ = false;
  while (i < len) {
    const ch = text[i];
    if (ch === '"') { if (inQ && i+1 < len && text[i+1] === '"') { cur += '"'; i += 2; continue; } inQ = !inQ; i++; continue; }
    if (!inQ && ch === ',') { row.push(cur); cur = ""; i++; continue; }
    if (!inQ && (ch === '\n' || ch === '\r')) {
      row.push(cur); cur = "";
      if (row.length && row.some(c => c !== "")) rows.push(row);
      row = [];
      if (ch === '\r' && i + 1 < len && text[i+1] === '\n') i += 2; else i++;
      continue;
    }
    cur += ch; i++;
  }
  if (cur.length > 0 || row.length > 0) { row.push(cur); if (row.length && row.some(c => c !== "")) rows.push(row); }
  return rows;
  }\<close>
  The loop runs over the text that is left (the suffix from index \<open>i\<close>); \<open>rows\<close>,
  \<open>row\<close>, \<open>cur\<close> and \<open>inQ\<close> are the loop's variables.
\<close>

definition pushRow :: "string list list \<Rightarrow> string list \<Rightarrow> string list list" where
  "pushRow rows row = (if row \<noteq> [] \<and> list_ex (\<lambda>c. c \<noteq> []) row then rows @ [row] else rows)"

function scanCSV :: "string list list \<Rightarrow> string list \<Rightarrow> string \<Rightarrow> bool \<Rightarrow> string \<Rightarrow> string list list" where
  "scanCSV rows row cur inQ [] =
     (if cur \<noteq> [] \<or> row \<noteq> [] then pushRow rows (row @ [cur]) else rows)"
| "scanCSV rows row cur inQ (ch # rest) =
     (if ch = DQ then
        (if inQ \<and> rest \<noteq> [] \<and> hd rest = DQ
         then scanCSV rows row (cur @ [DQ]) inQ (tl rest)
         else scanCSV rows row cur (\<not> inQ) rest)
      else if \<not> inQ \<and> ch = COMMA then scanCSV rows (row @ [cur]) [] inQ rest
      else if \<not> inQ \<and> (ch = LF \<or> ch = CR) then
        (if ch = CR \<and> rest \<noteq> [] \<and> hd rest = LF
         then scanCSV (pushRow rows (row @ [cur])) [] [] inQ (tl rest)
         else scanCSV (pushRow rows (row @ [cur])) [] [] inQ rest)
      else scanCSV rows row (cur @ [ch]) inQ rest)"
  by pat_completeness auto
termination
  by (relation "measure (\<lambda>(rows, row, cur, inQ, text). length text)") auto

definition parseCSVStream :: "string \<Rightarrow> string list list" where
  "parseCSVStream text = scanCSV [] [] [] False text"


section \<open>Strings and numbers of the parser\<close>

text \<open>
  \<^verbatim>\<open>String.prototype.trim\<close> and \<^verbatim>\<open>toLowerCase\<close>, on ASCII text: the white space
  is tab, line feed, vertical tab, form feed, carriage return and space; the letters
  \<open>A\<close> to \<open>Z\<close> are lowered and every other character is kept.
\<close>

definition isSpace :: "char \<Rightarrow> bool" where
  "isSpace c = (c \<in> {CHR 0x09, CHR 0x0A, CHR 0x0B, CHR 0x0C, CHR 0x0D, CHR 0x20})"

definition trim :: "string \<Rightarrow> string" where
  "trim s = rev (dropWhile isSpace (rev (dropWhile isSpace s)))"

definition lowerChar :: "char \<Rightarrow> char" where
  "lowerChar c = (if c \<in> set ''ABCDEFGHIJKLMNOPQRSTUVWXYZ''
                  then char_of (of_char c + (32 :: nat)) else c)"

definition toLowerCase :: "string \<Rightarrow> string" where
  "toLowerCase s = map lowerChar s"

text \<open>\<^verbatim>\<open>String(n)\<close> of an integer: its decimal digits, with a minus sign below zero.\<close>

definition decimalDigits :: string where
  "decimalDigits = ''0123456789''"

definition digitChar :: "nat \<Rightarrow> char" where
  "digitChar d = decimalDigits ! d"

function digitsOf :: "nat \<Rightarrow> string" where
  "digitsOf n = (if n < 10 then [digitChar n] else digitsOf (n div 10) @ [digitChar (n mod 10)])"
  by pat_completeness auto
termination
  by (relation "measure (\<lambda>n. n)") auto

declare digitsOf.simps [simp del]

definition StringOfInt :: "int \<Rightarrow> string" where
  "StringOfInt k = (if k < 0 then CHR ''-'' # digitsOf (nat (- k)) else digitsOf (nat k))"

definition StringOfBool :: "bool \<Rightarrow> string" where
  "StringOfBool b = (if b then ''true'' else ''false'')"

text \<open>\<^verbatim>\<open>Array.prototype.indexOf\<close>: the first index of the value, or \<open>-1\<close>.\<close>

fun indexOf :: "'a list \<Rightarrow> 'a \<Rightarrow> int" where
  "indexOf [] x = - 1"
| "indexOf (y # ys) x =
     (if y = x then 0 else (let k = indexOf ys x in if k < 0 then - 1 else k + 1))"

text \<open>
  \<^verbatim>\<open>row[k] || ""\<close>: a cell that is missing (the row is shorter, or \<open>k\<close> is negative) reads
  as \<^verbatim>\<open>undefined\<close> and becomes the empty string.
\<close>

definition cellOr :: "string list \<Rightarrow> int \<Rightarrow> string" where
  "cellOr row k = (if 0 \<le> k \<and> k < int (length row) then row ! nat k else [])"

section \<open>Question records\<close>

text \<open>
  The value \<^verbatim>\<open>toIdx\<close> gives to \<^verbatim>\<open>answerIndex\<close> is a number, or, for the two lower-case
  names every object literal inherits (\<^verbatim>\<open>constructor\<close> and \<^verbatim>\<open>__proto__\<close>, which
  \<^verbatim>\<open>t in m\<close> finds as well), the inherited member.
\<close>

datatype answer = Num int | Inherited string

text \<open>
  A question as \<^verbatim>\<open>parseCSV\<close> builds it (field \<open>qid\<close> is the source's \<^verbatim>\<open>id\<close>); an entry of
  \<open>choices\<close> is \<open>None\<close> where the JavaScript array holds \<^verbatim>\<open>undefined\<close>.
\<close>

record quiz_item =
  qid :: string
  domain :: string
  question :: string
  choices :: "string option list"
  answerIndex :: answer
  explanation :: string
  reference :: string

section \<open>CSV parser\<close>

text \<open>
  \<^verbatim>\<open>function parseCSV(text) {
  const table = parseCSVStream(text);
  if (!table.length) return [];
  const H = table[0].map(h => h.trim().toLowerCase());
  const ix = n => H.indexOf(n);
  const qi = ix("id"), di = ix("domain"), qq = ix("question"),
        ai = ix("a"), bi = ix("b"), ci = ix("c"), dd = ix("d"),
        co = ix("correct"), ex = ix("explanation"), rf = ix("reference");
  const required = [di, qq, ai, bi, ci, dd, co];
  if (required.some(i => i < 0)) return [];
  const allowed = new Set(["People","Process","Business","Agile"]);
  const toIdx = s => { const m={a:0,b:1,c:2,d:3}; const t=String(s).trim().toLowerCase(); if (t in m) return m[t]; if (/^[0-3]$/.test(t)) return Number(t); };
  return table.slice(1).reduce((out,row,r) => {
    if (!row || row.every(c => !c || !String(c).trim())) return out;
    const ans = toIdx(row[co] || ""); const dom = (row[di] || "").trim();
    if (ans === undefined || !allowed.has(dom)) return out;
    out.push({
      id: (qi >= 0 ? (row[qi] || "").trim() : "") || `U${r+1}`,
      domain: dom,
      question: (row[qq] || "").trim(),
      choices: [(row[ai]||"").trim(), (row[bi]||"").trim(), (row[ci]||"").trim(), (row[dd]||"").trim()],
      answerIndex: ans,
      explanation: ex >= 0 ? (row[ex] || "") : "",
      reference: rf >= 0 ? (row[rf] || "") : "",
    });
    return out;
  }, []);
  }\<close>
\<close>

definition csvHeader :: "string list list \<Rightarrow> string list" where
  "csvHeader table =
     (case table of [] \<Rightarrow> [] | h0 # rest \<Rightarrow> map (\<lambda>h. toLowerCase (trim h)) h0)"

definition requiredCols :: "string list" where
  "requiredCols = [''domain'', ''question'', ''a'', ''b'', ''c'', ''d'', ''correct'']"

definition allowed :: "string list" where
  "allowed = [''People'', ''Process'', ''Business'', ''Agile'']"

definition toIdx :: "string \<Rightarrow> answer option" where
  "toIdx s =
     (let t = toLowerCase (trim s) in
      if t = ''a'' then Some (Num 0)
      else if t = ''b'' then Some (Num 1)
      else if t = ''c'' then Some (Num 2)
      else if t = ''d'' then Some (Num 3)
      else if t = ''constructor'' \<or> t = ''__proto__'' then Some (Inherited t)
      else if t = ''0'' then Some (Num 0)
      else if t = ''1'' then Some (Num 1)
      else if t = ''2'' then Some (Num 2)
      else if t = ''3'' then Some (Num 3)
      else None)"

definition blankRow :: "string list \<Rightarrow> bool" where
  "blankRow row = list_all (\<lambda>c. c = [] \<or> trim c = []) row"

text \<open>
  The body of the \<^verbatim>\<open>reduce\<close> callback for the data row \<open>row\<close> at index \<open>r\<close>: \<open>None\<close>
  where the callback returns \<open>out\<close> as it is, \<open>Some\<close> of the record it pushes otherwise.
\<close>

definition rowQuestion :: "string list \<Rightarrow> nat \<Rightarrow> string list \<Rightarrow> quiz_item option" where
  "rowQuestion H r row =
     (let qi = indexOf H ''id''; di = indexOf H ''domain''; qq = indexOf H ''question'';
          ai = indexOf H ''a''; bi = indexOf H ''b''; ci = indexOf H ''c''; dd = indexOf H ''d'';
          co = indexOf H ''correct''; ex = indexOf H ''explanation''; rf = indexOf H ''reference''
      in if blankRow row then None
         else (case toIdx (cellOr row co) of
                 None \<Rightarrow> None
               | Some ans \<Rightarrow>
                   (let dom = trim (cellOr row di) in
                    if dom \<notin> set allowed then None
                    else Some \<lparr>
                      qid = (let given = (if 0 \<le> qi then trim (cellOr row qi) else [])
                             in if given \<noteq> [] then given else CHR ''U'' # StringOfInt (int r + 1)),
                      domain = dom,
                      question = trim (cellOr row qq),
                      choices = [Some (trim (cellOr row ai)), Some (trim (cellOr row bi)),
                                 Some (trim (cellOr row ci)), Some (trim (cellOr row dd))],
                      answerIndex = ans,
                      explanation = (if 0 \<le> ex then cellOr row ex else []),
                      reference = (if 0 \<le> rf then cellOr row rf else []) \<rparr>)))"

text \<open>The \<^verbatim>\<open>reduce\<close> itself: the accumulator \<open>out\<close>, the index \<open>r\<close>, the rows left.\<close>

fun reduceRows :: "string list \<Rightarrow> quiz_item list \<Rightarrow> nat \<Rightarrow> string list list \<Rightarrow> quiz_item list" where
  "reduceRows H out r [] = out"
| "reduceRows H out r (row # rows) =
     reduceRows H (case rowQuestion H r row of None \<Rightarrow> out | Some q \<Rightarrow> out @ [q]) (Suc r) rows"

definition parseCSV :: "string \<Rightarrow> quiz_item list" where
  "parseCSV text =
     (let table = parseCSVStream text in
      if table = [] then []
      else (let H = csvHeader table in
            if list_ex (\<lambda>n. indexOf H n < 0) requiredCols then []
            else reduceRows H [] 0 (tl table)))"


section \<open>Seeded shuffle (xorshift)\<close>

text \<open>
  \<^verbatim>\<open>function shuffle(arr, seed) {
  const a = [...arr];
  let s = seed ?? Math.floor(Math.random() * 1e9);
  const rand = () => { s ^= s << 13; s ^= s >>> 17; s ^= s << 5; return (s >>> 0) / 4294967296; };
  for (let i = a.length - 1; i > 0; i--) {
    const j = Math.floor(rand() * (i + 1));
    [a[i], a[j]] = [a[j], a[i]];
  }
  return a;
  }\<close>
  The bitwise operators work on the 32-bit value of \<open>s\<close>, so the generator's state is a
  \<open>32 word\<close>, and an integer seed enters it as \<open>word_of_int seed\<close>. The fraction
  \<^verbatim>\<open>rand()\<close> is \<open>uint s / 2^32\<close>; \<^verbatim>\<open>Math.floor(rand() * (i + 1))\<close> is the floor of the
  exact product, which is what the double product gives for arrays of up to \<open>2^21\<close>
  elements. A missing seed (\<^verbatim>\<open>undefined\<close> or \<^verbatim>\<open>null\<close>) is \<open>None\<close>; the number
  \<^verbatim>\<open>Math.floor(Math.random() * 1e9)\<close> drawn in that case is the parameter \<open>drawn\<close>.
\<close>

definition xorshift :: "32 word \<Rightarrow> 32 word" where
  "xorshift s =
     (let s1 = s XOR push_bit 13 s;
          s2 = s1 XOR drop_bit 17 s1
      in s2 XOR push_bit 5 s2)"

definition pick :: "32 word \<Rightarrow> nat \<Rightarrow> nat" where
  "pick s i = nat ((uint s * (int i + 1)) div 2 ^ 32)"

text \<open>The \<^verbatim>\<open>for\<close> loop, from index \<open>i\<close> down to 1, with the generator's state \<open>s\<close>.\<close>

fun shuffleLoop :: "nat \<Rightarrow> 32 word \<Rightarrow> 'a list \<Rightarrow> 'a list" where
  "shuffleLoop 0 s a = a"
| "shuffleLoop (Suc k) s a =
     (let s' = xorshift s; i = Suc k; j = pick s' i
      in shuffleLoop k s' (a[i := a ! j, j := a ! i]))"

definition shuffle :: "'a list \<Rightarrow> int option \<Rightarrow> int \<Rightarrow> 'a list" where
  "shuffle arr seed drawn =
     (let s = (case seed of None \<Rightarrow> drawn | Some k \<Rightarrow> k)
      in shuffleLoop (length arr - 1) (word_of_int s) arr)"

section \<open>Seeded shuffle (linear congruential, src/App.jsx)\<close>

text \<open>
  \<^verbatim>\<open>// Fisher-Yates shuffle. When a seed is provided a linear congruential generator
  // is used for deterministic shuffling.
  function shuffle(array, seed) {
  const arr = array.slice();
  let m = arr.length;
  let i;
  let rand = seed;
  const random = () => {
    rand = (rand * 16807) % 2147483647;
    return rand / 2147483647;
  };
  while (m) {
    i = Math.floor((seed ? random() : Math.random()) * m--);
    [arr[m], arr[i]] = [arr[i], arr[m]];
  }
  return arr;
  }\<close>
  A JavaScript array takes a write at any integer key: inside its length the element is
  replaced, beyond it the array grows (the gap reads as \<^verbatim>\<open>undefined\<close>), and a negative
  key becomes a property of the object that is no element. An element or property that
  is \<^verbatim>\<open>undefined\<close> is \<open>None\<close>.
\<close>

record 'a jsArray =
  elems :: "'a option list"
  props :: "int \<Rightarrow> 'a option"

definition fromList :: "'a list \<Rightarrow> 'a jsArray" where
  "fromList xs = \<lparr> elems = map Some xs, props = (\<lambda>k. None) \<rparr>"

definition aget :: "'a jsArray \<Rightarrow> int \<Rightarrow> 'a option" where
  "aget a k =
     (if k < 0 then props a k
      else if k < int (length (elems a)) then elems a ! nat k
      else None)"

definition aset :: "'a jsArray \<Rightarrow> int \<Rightarrow> 'a option \<Rightarrow> 'a jsArray" where
  "aset a k v =
     (if k < 0 then a\<lparr> props := (props a)(k := v) \<rparr>
      else if k < int (length (elems a)) then a\<lparr> elems := (elems a)[nat k := v] \<rparr>
      else a\<lparr> elems := elems a @ replicate (nat k - length (elems a)) None @ [v] \<rparr>)"

text \<open>
  The remainder \<^verbatim>\<open>%\<close> has the sign of the dividend. The product \<^verbatim>\<open>rand * 16807\<close> is a
  double: an integer of more than 53 bits is rounded to 53 bits, ties to even.
\<close>

definition jsRem :: "int \<Rightarrow> int \<Rightarrow> int" where
  "jsRem a b = sgn a * (\<bar>a\<bar> mod \<bar>b\<bar>)"

function bitLength :: "int \<Rightarrow> nat" where
  "bitLength a = (if a \<le> 0 then 0 else Suc (bitLength (a div 2)))"
  by pat_completeness auto
termination
  by (relation "measure nat") auto

declare bitLength.simps [simp del]

definition roundDouble :: "int \<Rightarrow> int" where
  "roundDouble x =
     (let a = \<bar>x\<bar> in
      if a < 2 ^ 53 then x
      else (let e = bitLength a - 53; q = a div 2 ^ e; r = a mod 2 ^ e; h = 2 ^ (e - 1);
                q' = (if h < r \<or> (r = h \<and> odd q) then q + 1 else q)
            in sgn x * (q' * 2 ^ e)))"

definition lcgNext :: "int \<Rightarrow> int" where
  "lcgNext rand = jsRem (roundDouble (rand * 16807)) 2147483647"

text \<open>
  The \<^verbatim>\<open>while\<close> loop. \<open>seeded\<close> is the test \<^verbatim>\<open>seed ? ... : ...\<close>, false for a missing
  seed and for the seed 0. The results of \<^verbatim>\<open>Math.random()\<close> are the stream \<open>us\<close>, each a
  fraction given by its numerator over \<open>2^53\<close>, and \<open>n\<close> counts the calls made. The
  index is the floor of the exact product, which is what the double operations give for
  arrays of up to \<open>2^20\<close> elements.
\<close>

fun lcgLoop :: "nat \<Rightarrow> bool \<Rightarrow> int \<Rightarrow> (nat \<Rightarrow> 53 word) \<Rightarrow> nat \<Rightarrow> 'a jsArray \<Rightarrow> 'a jsArray" where
  "lcgLoop 0 seeded rand us n arr = arr"
| "lcgLoop (Suc m) seeded rand us n arr =
     (let rand' = (if seeded then lcgNext rand else rand);
          i = (if seeded then (rand' * int (Suc m)) div 2147483647
               else (uint (us n) * int (Suc m)) div 2 ^ 53);
          x = aget arr i; y = aget arr (int m)
      in lcgLoop m seeded rand' us (if seeded then n else Suc n)
           (aset (aset arr (int m) x) i y))"

definition shuffleLCG :: "'a list \<Rightarrow> int option \<Rightarrow> (nat \<Rightarrow> 53 word) \<Rightarrow> 'a jsArray" where
  "shuffleLCG array seed us =
     (let seeded = (case seed of None \<Rightarrow> False | Some k \<Rightarrow> k \<noteq> 0);
          rand = (case seed of None \<Rightarrow> 0 | Some k \<Rightarrow> k)
      in lcgLoop (length array) seeded rand us 0 (fromList array))"


section \<open>Session state\<close>

text \<open>
  The component's state variables (\<^verbatim>\<open>useState\<close>) are the fields of one record. A
  render fixes their values: the handlers of that render are closures over them, and a
  setter only queues the value of the next render. A handler is therefore a function
  of the rendered state \<open>s\<close> that reads every state variable from \<open>s\<close> and returns the
  state of the next render; an updater function (\<^verbatim>\<open>prev => ...\<close>) is applied to the
  value queued so far. \<^verbatim>\<open>Date.now()\<close> is the parameter \<open>now\<close>. The objects used as
  dictionaries (\<open>results\<close>, \<open>eliminated\<close>, \<open>selectedDomains\<close>) are modelled by
  the properties stored in them; a key that names a member every object inherits (such
  as \<^verbatim>\<open>toString\<close>) and was never stored is outside the model.
\<close>

datatype mode = Practice | Exam

record result =
  res_id :: string
  res_firstTryCorrect :: bool
  res_tries :: nat
  res_timeMs :: int
  res_chosenHistory :: "int list"

text \<open>
  \<open>timers\<close> holds the calls queued by \<^verbatim>\<open>setTimeout(nextQuestion, 220)\<close>: what the queued
  closure reads from its render, \<open>idx\<close> and \<open>sessionQs.length\<close>.
\<close>

record app =
  allQuestions :: "quiz_item list"
  selectedDomains :: "string \<Rightarrow> bool"
  mode :: mode
  sessionSize :: rat
  seed :: int
  sessionQs :: "quiz_item list"
  idx :: nat
  started :: bool
  finished :: bool
  eliminated :: "int set"
  chosenHistory :: "int list"
  firstTryCorrect :: "bool option"
  results :: "string \<rightharpoonup> result"
  questionStart :: "int option"
  timers :: "(nat \<times> nat) list"

datatype error = TypeError

text \<open>
  \<^verbatim>\<open>const filtered = useMemo(
    () => allQuestions.filter(q => q && q.domain && selectedDomains[q.domain]), ...);\<close>
\<close>

definition filtered :: "app \<Rightarrow> quiz_item list" where
  "filtered s = filter (\<lambda>q. domain q \<noteq> [] \<and> selectedDomains s (domain q)) (allQuestions s)"

text \<open>
  The session size is \<^verbatim>\<open>Number(e.target.value)\<close> of a number input: any finite number,
  negative or with a fraction, modelled as a rational (the input gives the empty string,
  and so 0, for what is no number).

  \<^verbatim>\<open>arr.slice(0, end)\<close>: the \<open>end\<close> is truncated towards zero to an integer, and a
  negative one counts from the end of the array.
\<close>

definition jsTrunc :: "rat \<Rightarrow> int" where
  "jsTrunc x = (if x < 0 then - \<lfloor>- x\<rfloor> else \<lfloor>x\<rfloor>)"

definition slice0 :: "'a list \<Rightarrow> rat \<Rightarrow> 'a list" where
  "slice0 xs e =
     (let len = int (length xs);
          relativeEnd = jsTrunc e;
          final = (if relativeEnd < 0 then max (len + relativeEnd) 0 else min relativeEnd len)
      in take (nat final) xs)"

text \<open>
  \<^verbatim>\<open>function startSession() {
    const pool = shuffle(filtered, seed);
    const pick = pool.slice(0, Math.min(sessionSize, pool.length));
    setSessionQs(pick);
    setIdx(0);
    setStarted(true);
    setFinished(false);
    setResults({});
    setEliminated({});
    setChosenHistory([]);
    setFirstTryCorrect(null);
    setQuestionStart(Date.now());
  }\<close>
  The state variable \<open>seed\<close> is always a number, so \<^verbatim>\<open>shuffle\<close> draws none.
\<close>

definition startSession :: "app \<Rightarrow> int \<Rightarrow> app" where
  "startSession s now =
     (let pool = shuffle (filtered s) (Some (seed s)) 0;
          pick = slice0 pool (min (sessionSize s) (of_nat (length pool)))
      in s\<lparr> sessionQs := pick, idx := 0, started := True, finished := False,
            results := Map.empty, eliminated := {}, chosenHistory := [],
            firstTryCorrect := None, questionStart := Some now \<rparr>)"

text \<open>\<^verbatim>\<open>const q = sessionQs[idx];\<close> of the render; \<open>None\<close> is \<^verbatim>\<open>undefined\<close>.\<close>

definition currentQ :: "app \<Rightarrow> quiz_item option" where
  "currentQ s = (if idx s < length (sessionQs s) then Some (sessionQs s ! idx s) else None)"

text \<open>
  \<^verbatim>\<open>function recordResult(isCorrect) {
    if (!q) return;
    const tries = Math.max(1, chosenHistory.length || 1);
    setResults(prev => ({
      ...prev,
      [q.id]: { id: q.id, firstTryCorrect: !!(isCorrect && tries === 1), tries, timeMs: questionStart ? Date.now() - questionStart : 0, chosenHistory: [...chosenHistory] }
    }));
  }\<close>
  \<open>s\<close> is the render the closure belongs to and \<open>p\<close> the state queued so far.
\<close>

definition recordResult :: "app \<Rightarrow> int \<Rightarrow> bool \<Rightarrow> app \<Rightarrow> app" where
  "recordResult s now isCorrect p =
     (case currentQ s of
        None \<Rightarrow> p
      | Some q \<Rightarrow>
          (let n = length (chosenHistory s);
               tries = max 1 (if n = 0 then 1 else n)
           in p\<lparr> results := (results p)(qid q \<mapsto>
                  \<lparr> res_id = qid q,
                    res_firstTryCorrect = (isCorrect \<and> tries = 1),
                    res_tries = tries,
                    res_timeMs = (case questionStart s of
                                    None \<Rightarrow> 0
                                  | Some t \<Rightarrow> if t = 0 then 0 else now - t),
                    res_chosenHistory = chosenHistory s \<rparr>) \<rparr>))"

text \<open>
  \<^verbatim>\<open>function nextQuestion() {
    const atEnd = idx + 1 >= sessionQs.length;
    if (atEnd) { setStarted(false); setFinished(true); return; }
    setIdx(i => i + 1);
    setEliminated({});
    setChosenHistory([]);
    setFirstTryCorrect(null);
    setQuestionStart(Date.now());
  }\<close>
  \<open>(i, len)\<close> are \<open>idx\<close> and \<open>sessionQs.length\<close> of the closure's render.
\<close>

definition nextQuestion :: "nat \<times> nat \<Rightarrow> int \<Rightarrow> app \<Rightarrow> app" where
  "nextQuestion cl now p =
     (case cl of (i, len) \<Rightarrow>
        if len \<le> i + 1 then p\<lparr> started := False, finished := True \<rparr>
        else p\<lparr> idx := idx p + 1, eliminated := {}, chosenHistory := [],
                firstTryCorrect := None, questionStart := Some now \<rparr>)"

text \<open>
  \<^verbatim>\<open>const correctIndex = (question) => isV21(question) ? (question.correct_index ?? 0) : question.answerIndex;

  function onChoice(choiceIdx) {
    const correct = correctIndex(q);
    if (mode === "practice") {
      if (choiceIdx === correct) {
        setChosenHistory(prev => [...prev, choiceIdx]);
        recordResult(true);
        setFirstTryCorrect(chosenHistory.length === 0);
        setTimeout(nextQuestion, 220);
      } else {
        setEliminated(prev => ({ ...prev, [choiceIdx]: true }));
        setChosenHistory(prev => [...prev, choiceIdx]);
        setFirstTryCorrect(false);
      }
    } else {
      setChosenHistory([choiceIdx]);
      recordResult(choiceIdx === correct);
      nextQuestion();
    }
  }\<close>
  The questions are the records of \<^verbatim>\<open>parseCSV\<close>, which have neither \<^verbatim>\<open>item_type\<close> nor
  \<^verbatim>\<open>correct_index\<close>, so \<^verbatim>\<open>correctIndex\<close> reads \<^verbatim>\<open>answerIndex\<close>; without a current
  question that read throws.
\<close>

definition onChoice :: "app \<Rightarrow> int \<Rightarrow> int \<Rightarrow> error + app" where
  "onChoice s now choiceIdx =
     (case currentQ s of
        None \<Rightarrow> Inl TypeError
      | Some q \<Rightarrow>
          (let correct = answerIndex q in
           if mode s = Practice then
             (if Num choiceIdx = correct then
                Inr ((recordResult s now True
                        (s\<lparr> chosenHistory := chosenHistory s @ [choiceIdx] \<rparr>))
                      \<lparr> firstTryCorrect := Some (length (chosenHistory s) = 0),
                        timers := timers s @ [(idx s, length (sessionQs s))] \<rparr>)
              else
                Inr (s\<lparr> eliminated := insert choiceIdx (eliminated s),
                        chosenHistory := chosenHistory s @ [choiceIdx],
                        firstTryCorrect := Some False \<rparr>))
           else
             Inr (nextQuestion (idx s, length (sessionQs s)) now
                    (recordResult s now (Num choiceIdx = correct)
                       (s\<lparr> chosenHistory := [choiceIdx] \<rparr>)))))"

text \<open>The timer fires: the oldest queued \<^verbatim>\<open>nextQuestion\<close> runs with its closure.\<close>

definition fireTimer :: "app \<Rightarrow> int \<Rightarrow> app" where
  "fireTimer s now =
     (case timers s of
        [] \<Rightarrow> s
      | cl # rest \<Rightarrow> nextQuestion cl now (s\<lparr> timers := rest \<rparr>))"

section \<open>Choice permutation at session start\<close>

text \<open>
  The branch of \<^verbatim>\<open>beginSession\<close> for the records of \<^verbatim>\<open>parseCSV\<close>:
  \<^verbatim>\<open>const pick = pickRaw.map((q) => {
      if (isV21(q)) { ... } else {
        const idxs = shuffle([0,1,2,3], Math.floor(Math.random()*1e9));
        const newChoices = [q.choices[idxs[0]], q.choices[idxs[1]], q.choices[idxs[2]], q.choices[idxs[3]]];
        const newAnswerIndex = idxs.indexOf(q.answerIndex);
        return { ...q, choices: newChoices, answerIndex: newAnswerIndex };
      }
    });\<close>
  \<open>permuteChoices q idxs\<close> is the record returned for the order \<open>idxs\<close>; reading an
  array outside its length gives \<^verbatim>\<open>undefined\<close>.
\<close>

definition nthOpt :: "'a list \<Rightarrow> nat \<Rightarrow> 'a option" where
  "nthOpt xs k = (if k < length xs then Some (xs ! k) else None)"

definition permuteChoices :: "quiz_item \<Rightarrow> nat list \<Rightarrow> quiz_item" where
  "permuteChoices q idxs =
     q\<lparr> choices :=
          map (\<lambda>i. case nthOpt idxs i of
                      None \<Rightarrow> None
                    | Some k \<Rightarrow> (case nthOpt (choices q) k of None \<Rightarrow> None | Some c \<Rightarrow> c))
              [0, 1, 2, 3],
        answerIndex :=
          Num (case answerIndex q of
                 Num k \<Rightarrow> indexOf (map int idxs) k
               | Inherited t \<Rightarrow> - 1) \<rparr>"

text \<open>
  \<^verbatim>\<open>function beginSession() {
    const pool = shuffle(filtered, seed);
    const pickRaw = pool.slice(0, Math.min(sessionSize, pool.length));
    const pick = pickRaw.map((q) => { ... });
    setSessionQs(pick);
    setIdx(0);
    setResults({});
    setFinished(false);
    setStarted(true);
    setEliminated({});
    setChosenHistory([]);
    ...
    setFirstTryCorrect(null);
    setQuestionStart(Date.now());
  }\<close>
  \<open>draws i\<close> is the number \<^verbatim>\<open>Math.floor(Math.random()*1e9)\<close> drawn for the question at
  index \<open>i\<close>.
\<close>

definition beginSession :: "app \<Rightarrow> int \<Rightarrow> (nat \<Rightarrow> int) \<Rightarrow> app" where
  "beginSession s now draws =
     (let pool = shuffle (filtered s) (Some (seed s)) 0;
          pickRaw = slice0 pool (min (sessionSize s) (of_nat (length pool)));
          pick = map (\<lambda>(i, q). permuteChoices q (shuffle [0, 1, 2, 3] (Some (draws i)) 0))
                     (enumerate 0 pickRaw)
      in s\<lparr> sessionQs := pick, idx := 0, results := Map.empty, finished := False,
            started := True, eliminated := {}, chosenHistory := [],
            firstTryCorrect := None, questionStart := Some now \<rparr>)"

section \<open>Export\<close>

text \<open>
  \<^verbatim>\<open>function exportSummary() {
    const rows = [["id","domain","first_try_correct","tries","time_ms","chosen","question","correct","explanation"]];
    sessionQs.forEach((question) => {
      const r = results[question.id];
      const stem = isV21(question) ? (question.question || question.prompt || "") : question.question;
      const cIdx = correctIndex(question);
      const correct = question?.choices?.[cIdx] ?? "";
      rows.push([question.id, question.domain || "", r ? String(r.firstTryCorrect) : "", r ? String(r.tries) : "", r ? String(r.timeMs) : "", r ? r.chosenHistory.join("|") : "", stem || "", correct || "", question.explanation || ""]);
    });
    download(`pmp_session_${new Date().toISOString().slice(0,10)}.csv`, toCSV(rows));
  }\<close>
  \<open>exportRows\<close> is the array \<open>rows\<close> and \<open>exportSummary\<close> the text handed to
  \<^verbatim>\<open>download\<close>.
\<close>

definition exportHeader :: "string list" where
  "exportHeader = [''id'', ''domain'', ''first_try_correct'', ''tries'', ''time_ms'',
                   ''chosen'', ''question'', ''correct'', ''explanation'']"

definition correctText :: "quiz_item \<Rightarrow> string" where
  "correctText q =
     (case answerIndex q of
        Num k \<Rightarrow>
          (if 0 \<le> k then (case nthOpt (choices q) (nat k) of
                             Some (Some t) \<Rightarrow> t
                           | _ \<Rightarrow> [])
           else [])
      | Inherited t \<Rightarrow> [])"

definition exportRow :: "(string \<rightharpoonup> result) \<Rightarrow> quiz_item \<Rightarrow> string list" where
  "exportRow res q =
     [qid q,
      domain q,
      (case res (qid q) of None \<Rightarrow> [] | Some r \<Rightarrow> StringOfBool (res_firstTryCorrect r)),
      (case res (qid q) of None \<Rightarrow> [] | Some r \<Rightarrow> StringOfInt (int (res_tries r))),
      (case res (qid q) of None \<Rightarrow> [] | Some r \<Rightarrow> StringOfInt (res_timeMs r)),
      (case res (qid q) of None \<Rightarrow> []
       | Some r \<Rightarrow> join ''|'' (map StringOfInt (res_chosenHistory r))),
      question q,
      correctText q,
      explanation q]"

definition exportRows :: "app \<Rightarrow> string list list" where
  "exportRows s = exportHeader # map (exportRow (results s)) (sessionQs s)"

definition exportSummary :: "app \<Rightarrow> string" where
  "exportSummary s = toCSV (exportRows s)"


section \<open>Conditions and sample inputs used in the statements\<close>

text \<open>
  A cell survives the serializer and the tokenizer when a carriage return in it is
  protected by quotes, that is when the cell also holds a character the serializer quotes
  for. A row survives when one of its cells is not empty: the tokenizer drops the others.
\<close>

definition cellOK :: "string \<Rightarrow> bool" where
  "cellOK cell = (CR \<in> set cell \<longrightarrow> needsQuote cell)"

definition rowOK :: "string list \<Rightarrow> bool" where
  "rowOK row = (list_ex (\<lambda>c. c \<noteq> []) row \<and> list_all cellOK row)"

definition quotedSample :: "string list list" where
  "quotedSample =
     [[''id'', ''note'', ''extra''],
      [''Q1'', ''John, '' @ [DQ] @ ''the PM,'' @ [DQ] @ '' said '' @ [DQ] @ ''go'' @ [DQ], []],
      [[], ''two'' @ [LF] @ ''lines'', ''x'' @ [CR] @ '','']]"

definition blankRowSample :: "string list list" where
  "blankRowSample = [[''a'', ''b''], [[], []], [''c'', ''d'']]"

definition noCorrectColumn :: string where
  "noCorrectColumn = ''domain,question,a,b,c,d'' @ [LF] @ ''People,Q,w,x,y,z''"

definition mixedBank :: string where
  "mixedBank =
     ''Domain, Question ,a,b,c,d,CORRECT,explanation'' @ [LF] @
     ''Scrum,Q0,w,x,y,z,a,no'' @ [LF] @
     ''People,Q1,w,x,y,z,a,  padded '' @ [LF] @
     [LF] @
     ''Agile,Q2,w,x,y,z,7,bad answer'' @ [LF] @
     ''Agile,Q3,w,x,y,z,3,''"

definition paddedExplanation :: string where
  "paddedExplanation =
     ''domain,question,a,b,c,d,correct,explanation'' @ [LF] @
     ''People,Q1,w,x,y,z,a,  padded ''"

definition demoQ :: "string \<Rightarrow> quiz_item" where
  "demoQ name =
     \<lparr> qid = name, domain = ''People'', question = ''What?'',
       choices = [Some ''A'', Some ''B'', Some ''C'', Some ''D''],
       answerIndex = Num 2, explanation = ''Because'', reference = [] \<rparr>"

text \<open>The state of the first render (the \<^verbatim>\<open>useState\<close> defaults), with a bank loaded.\<close>

definition initialApp :: "quiz_item list \<Rightarrow> app" where
  "initialApp bank =
     \<lparr> allQuestions = bank, selectedDomains = (\<lambda>d. d \<in> set allowed), mode = Practice,
       sessionSize = 20, seed = 42, sessionQs = [], idx = 0, started = False,
       finished = False, eliminated = {}, chosenHistory = [], firstTryCorrect = None,
       results = Map.empty, questionStart = None, timers = [] \<rparr>"

text \<open>
  A run of clicks: each click \<open>(now, choiceIdx)\<close> is handled by the render that the
  click before it left.
\<close>

fun clicks :: "app \<Rightarrow> (int \<times> int) list \<Rightarrow> error + app" where
  "clicks s [] = Inr s"
| "clicks s ((now, choiceIdx) # cs) =
     (case onChoice s now choiceIdx of Inl e \<Rightarrow> Inl e | Inr s' \<Rightarrow> clicks s' cs)"

definition recorded :: "error + app \<Rightarrow> string \<Rightarrow> result option" where
  "recorded run name = (case run of Inl e \<Rightarrow> None | Inr s \<Rightarrow> results s name)"

definition oneQuestionSession :: app where
  "oneQuestionSession = startSession (initialApp [demoQ ''Q1'']) 1000"

definition threeQuestionApp :: "rat \<Rightarrow> app" where
  "threeQuestionApp requested =
     (initialApp [demoQ ''Q1'', demoQ ''Q2'', demoQ ''Q3''])\<lparr> sessionSize := requested \<rparr>"

text \<open>The lines of a text, \<^verbatim>\<open>text.split("\n")\<close>.\<close>

fun textLines :: "string \<Rightarrow> string list" where
  "textLines [] = [[]]"
| "textLines (c # cs) =
     (if c = LF then [] # textLines cs
      else (case textLines cs of [] \<Rightarrow> [[c]] | l # ls \<Rightarrow> (c # l) # ls))"

text \<open>
  The sample \<open>newlineInField\<close> of the source's own \<^verbatim>\<open>runCsvTests\<close>: a question whose
  text holds a line feed.
\<close>

definition newlineInField :: string where
  "newlineInField =
     ''id,domain,question,a,b,c,d,correct'' @ [LF] @
     ''Q4,People,'' @ [DQ] @ ''Line1'' @ [LF] @ ''Line2'' @ [DQ] @ '',A,B,C,D,D'' @ [LF]"

text \<open>
  A session played to its end: started on the bank, the clicks \<open>cs\<close> handled one by
  one, then the queued \<^verbatim>\<open>nextQuestion\<close> fired.
\<close>

definition playToEnd :: "quiz_item list \<Rightarrow> (int \<times> int) list \<Rightarrow> app" where
  "playToEnd bank cs =
     (case clicks (startSession (initialApp bank) 1000) cs of
        Inl e \<Rightarrow> initialApp bank
      | Inr s \<Rightarrow> fireTimer s 1720)"

definition finishedDemoSession :: app where
  "finishedDemoSession = playToEnd [demoQ ''Q1''] [(1500, 2)]"

definition finishedNewlineSession :: app where
  "finishedNewlineSession = playToEnd (parseCSV newlineInField) [(1500, 3)]"

text \<open>
  The tokenizer's flag \<open>inQ\<close> after it has read a text, started with the flag \<open>inQ\<close>:
  the text ends inside a quoted field when it is true.
\<close>

function quotedAfter :: "bool \<Rightarrow> string \<Rightarrow> bool" where
  "quotedAfter inQ [] = inQ"
| "quotedAfter inQ (ch # rest) =
     (if ch = DQ then
        (if inQ \<and> rest \<noteq> [] \<and> hd rest = DQ then quotedAfter inQ (tl rest)
         else quotedAfter (\<not> inQ) rest)
      else quotedAfter inQ rest)"
  by pat_completeness auto
termination
  by (relation "measure (\<lambda>(inQ, text). length text)") auto

section \<open>Serializer and tokenizer: the round trip\<close>

lemmas csv_chars = DQ_def COMMA_def LF_def CR_def

lemma scanCSV_bare:
  "DQ \<notin> set cell \<Longrightarrow> COMMA \<notin> set cell \<Longrightarrow> LF \<notin> set cell \<Longrightarrow> CR \<notin> set cell \<Longrightarrow>
   scanCSV rows row cur False (cell @ rest) = scanCSV rows row (cur @ cell) False rest"
  by (induction cell arbitrary: cur) auto

lemma scanCSV_quoted:
  "rest = [] \<or> hd rest \<noteq> DQ \<Longrightarrow>
   scanCSV rows row cur True (doubleQuotes cell @ DQ # rest) = scanCSV rows row (cur @ cell) False rest"
  by (induction cell arbitrary: cur) (auto simp: doubleQuotes_def)

lemma scanCSV_cell:
  "cellOK cell \<Longrightarrow> rest = [] \<or> hd rest \<noteq> DQ \<Longrightarrow>
   scanCSV rows row [] False (csvCell cell @ rest) = scanCSV rows row cell False rest"
  using scanCSV_bare[of cell rows row "[]" rest] scanCSV_quoted[of rest rows row "[]" cell]
  by (auto simp: csvCell_def cellOK_def needsQuote_def)

lemma scanCSV_line:
  "cells \<noteq> [] \<Longrightarrow> \<forall>c\<in>set cells. cellOK c \<Longrightarrow> rest = [] \<or> hd rest = LF \<Longrightarrow>
   scanCSV rows row [] False (csvLine cells @ rest)
     = scanCSV rows (row @ butlast cells) (last cells) False rest"
proof (induction cells arbitrary: row rule: induct_list012)
  case 1
  then show ?case by simp
next
  case (2 x)
  have "rest = [] \<or> hd rest \<noteq> DQ"
    using 2 by (auto simp: csv_chars)
  then show ?case
    using 2 by (simp add: csvLine_def scanCSV_cell)
next
  case (3 x y zs)
  have ok: "cellOK x"
    using 3 by simp
  have "scanCSV rows row [] False (csvLine (x # y # zs) @ rest)
      = scanCSV rows row [] False (csvCell x @ (COMMA # (csvLine (y # zs) @ rest)))"
    by (simp add: csvLine_def)
  also have "\<dots> = scanCSV rows row x False (COMMA # (csvLine (y # zs) @ rest))"
    by (rule scanCSV_cell[OF ok]) (simp add: csv_chars)
  also have "\<dots> = scanCSV rows (row @ [x]) [] False (csvLine (y # zs) @ rest)"
    by (simp add: csv_chars)
  also have "\<dots> = scanCSV rows ((row @ [x]) @ butlast (y # zs)) (last (y # zs)) False rest"
    using 3 by (intro "3.IH"(2)) auto
  finally show ?case by simp
qed

lemma pushRow_rowOK: "rowOK r \<Longrightarrow> pushRow rows (butlast r @ [last r]) = rows @ [r]"
  by (cases r rule: rev_cases) (auto simp: rowOK_def pushRow_def list_ex_iff)

lemma rowOK_last: "rowOK r \<Longrightarrow> last r \<noteq> [] \<or> butlast r \<noteq> []"
  by (cases r rule: rev_cases) (auto simp: rowOK_def list_ex_iff)

lemma scanCSV_rows:
  "list_all rowOK rs \<Longrightarrow> scanCSV acc [] [] False (toCSV rs) = acc @ rs"
proof (induction rs arbitrary: acc rule: induct_list012)
  case 1
  show ?case by (simp add: toCSV_def)
next
  case (2 r)
  then have ok: "rowOK r" by simp
  then have ne: "r \<noteq> []" and cs: "\<forall>c\<in>set r. cellOK c"
    by (auto simp: rowOK_def list_all_iff list_ex_iff)
  have "scanCSV acc [] [] False (csvLine r @ []) = scanCSV acc ([] @ butlast r) (last r) False []"
    by (rule scanCSV_line[OF ne cs]) simp
  then show ?case
    using pushRow_rowOK[OF ok] rowOK_last[OF ok] by (auto simp: toCSV_def)
next
  case (3 r r2 rs)
  then have ok: "rowOK r" by simp
  then have ne: "r \<noteq> []" and cs: "\<forall>c\<in>set r. cellOK c"
    by (auto simp: rowOK_def list_all_iff list_ex_iff)
  have "scanCSV acc [] [] False (toCSV (r # r2 # rs))
      = scanCSV acc [] [] False (csvLine r @ (LF # toCSV (r2 # rs)))"
    by (simp add: toCSV_def)
  also have "\<dots> = scanCSV acc ([] @ butlast r) (last r) False (LF # toCSV (r2 # rs))"
    by (rule scanCSV_line[OF ne cs]) simp
  also have "\<dots> = scanCSV (acc @ [r]) [] [] False (toCSV (r2 # rs))"
    using pushRow_rowOK[OF ok] by (simp add: csv_chars)
  also have "\<dots> = (acc @ [r]) @ r2 # rs"
    using 3 by (intro "3.IH"(2)) simp
  finally show ?case by simp
qed

lemma parseCSVStream_toCSV: "list_all rowOK rows \<Longrightarrow> parseCSVStream (toCSV rows) = rows"
  by (simp add: parseCSVStream_def scanCSV_rows)

text \<open>
  C2, as amended: for every sequence of rows in which each row has a cell that is not
  empty, and in which every cell holding a carriage return also holds a comma, a double
  quote or a line feed, encoding the rows with \<open>toCSV\<close> and tokenizing the text with
  \<open>parseCSVStream\<close> gives back exactly the rows and their cells.
\<close>

theorem toCSV_roundtrip:
  assumes "list_all rowOK rows"
  shows "parseCSVStream (toCSV rows) = rows"
  using assms by (rule parseCSVStream_toCSV)

text \<open>
  The round trip at rows with quotes, commas, an embedded line feed, empty cells and a
  quoted carriage return.
\<close>

theorem toCSV_roundtrip_witness:
  "list_all rowOK quotedSample \<and> parseCSVStream (toCSV quotedSample) = quotedSample"
proof -
  have ok: "list_all rowOK quotedSample"
    by (simp add: quotedSample_def rowOK_def cellOK_def needsQuote_def csv_chars)
  from toCSV_roundtrip[OF ok] have "parseCSVStream (toCSV quotedSample) = quotedSample" .
  with ok show ?thesis by (intro conjI)
qed

text \<open>
  C2 as it is stated fails: a row of empty cells is written as a line of commas, and the
  tokenizer drops every row without a non-empty cell.
\<close>

theorem toCSV_roundtrip_counterexample:
  "parseCSVStream (toCSV blankRowSample) \<noteq> blankRowSample"
  by (simp add: blankRowSample_def toCSV_def csvLine_def csvCell_def needsQuote_def
        parseCSVStream_def pushRow_def csv_chars)

section \<open>Parser: header, row order, fields\<close>

lemma indexOf_neg_iff: "indexOf xs x < 0 \<longleftrightarrow> x \<notin> set xs"
  by (induction xs) (auto simp: Let_def)

lemma indexOf_mem:
  "x \<in> set xs \<Longrightarrow>
   0 \<le> indexOf xs x \<and> nat (indexOf xs x) < length xs \<and> xs ! nat (indexOf xs x) = x"
proof (induction xs)
  case Nil
  then show ?case by simp
next
  case (Cons y ys)
  show ?case
  proof (cases "y = x")
    case True
    then show ?thesis by simp
  next
    case False
    with Cons.prems have m: "x \<in> set ys" by simp
    from Cons.IH[OF m]
    have ih: "0 \<le> indexOf ys x" "nat (indexOf ys x) < length ys" "ys ! nat (indexOf ys x) = x"
      by auto
    from ih(1) have "nat (indexOf ys x + 1) = Suc (nat (indexOf ys x))" by simp
    with False ih show ?thesis by (simp add: Let_def)
  qed
qed

text \<open>
  C5: when the header row of the text, its cells trimmed and lowered, lacks one of the
  required columns \<open>domain\<close>, \<open>question\<close>, \<open>a\<close>, \<open>b\<close>, \<open>c\<close>, \<open>d\<close>, \<open>correct\<close>,
  \<open>parseCSV\<close> returns the empty list. \<open>parseCSV\<close> is a total function: no step of
  the source can throw on a string.
\<close>

theorem parseCSV_header_missing:
  assumes "n \<in> set requiredCols" and "n \<notin> set (csvHeader (parseCSVStream text))"
  shows "parseCSV text = []"
  using assms by (auto simp: parseCSV_def Let_def list_ex_iff indexOf_neg_iff)

text \<open>A bank without the \<open>correct\<close> column parses to no question.\<close>

theorem parseCSV_header_missing_witness:
  "''correct'' \<in> set requiredCols
   \<and> ''correct'' \<notin> set (csvHeader (parseCSVStream noCorrectColumn))
   \<and> parseCSV noCorrectColumn = []"
proof -
  have req: "''correct'' \<in> set requiredCols"
    by (simp add: requiredCols_def)
  have hdr: "csvHeader (parseCSVStream noCorrectColumn)
               = [''domain'', ''question'', ''a'', ''b'', ''c'', ''d'']"
    by code_simp
  have missing: "''correct'' \<notin> set (csvHeader (parseCSVStream noCorrectColumn))"
    unfolding hdr by simp
  from parseCSV_header_missing[OF req missing] have "parseCSV noCorrectColumn = []" .
  with req missing show ?thesis by (intro conjI)
qed

lemma pushRow_append: "pushRow rows r = rows @ pushRow [] r"
  by (simp add: pushRow_def)

lemma scanCSV_acc: "scanCSV rows row cur inQ inp = rows @ scanCSV [] row cur inQ inp"
proof (induction "length inp" arbitrary: rows row cur inQ inp rule: less_induct)
  case less
  show ?case
  proof (cases inp)
    case Nil
    then show ?thesis by (simp add: pushRow_def)
  next
    case (Cons ch rest)
    have ih: "scanCSV rs a b c rest = rs @ scanCSV [] a b c rest" for rs a b c
      by (rule less) (simp add: Cons)
    have ihtl: "scanCSV rs a b c (tl rest) = rs @ scanCSV [] a b c (tl rest)" for rs a b c
      by (rule less) (simp add: Cons)
    have k: "scanCSV (pushRow rows r) a b c rest = rows @ scanCSV (pushRow [] r) a b c rest"
      for r a b c
      by (subst ih, subst (2) ih, subst pushRow_append) simp
    have ktl: "scanCSV (pushRow rows r) a b c (tl rest) = rows @ scanCSV (pushRow [] r) a b c (tl rest)"
      for r a b c
      by (subst ihtl, subst (2) ihtl, subst pushRow_append) simp
    consider (esc) "ch = DQ" "inQ \<and> rest \<noteq> [] \<and> hd rest = DQ"
      | (toggle) "ch = DQ" "\<not> (inQ \<and> rest \<noteq> [] \<and> hd rest = DQ)"
      | (comma) "ch \<noteq> DQ" "\<not> inQ \<and> ch = COMMA"
      | (crlf) "ch \<noteq> DQ" "\<not> (\<not> inQ \<and> ch = COMMA)" "\<not> inQ \<and> (ch = LF \<or> ch = CR)"
          "ch = CR \<and> rest \<noteq> [] \<and> hd rest = LF"
      | (newline) "ch \<noteq> DQ" "\<not> (\<not> inQ \<and> ch = COMMA)" "\<not> inQ \<and> (ch = LF \<or> ch = CR)"
          "\<not> (ch = CR \<and> rest \<noteq> [] \<and> hd rest = LF)"
      | (plain) "ch \<noteq> DQ" "\<not> (\<not> inQ \<and> ch = COMMA)" "\<not> (\<not> inQ \<and> (ch = LF \<or> ch = CR))"
      by blast
    then show ?thesis
    proof cases
      case esc
      then have "scanCSV rs row cur inQ (ch # rest) = scanCSV rs row (cur @ [DQ]) inQ (tl rest)" for rs
        by simp
      then show ?thesis unfolding Cons by (simp only: ihtl[of rows])
    next
      case toggle
      then have "scanCSV rs row cur inQ (ch # rest) = scanCSV rs row cur (\<not> inQ) rest" for rs
        by auto
      then show ?thesis unfolding Cons by (simp only: ih[of rows])
    next
      case comma
      then have "scanCSV rs row cur inQ (ch # rest) = scanCSV rs (row @ [cur]) [] inQ rest" for rs
        by simp
      then show ?thesis unfolding Cons by (simp only: ih[of rows])
    next
      case crlf
      then have "scanCSV rs row cur inQ (ch # rest)
                   = scanCSV (pushRow rs (row @ [cur])) [] [] inQ (tl rest)" for rs
        by simp
      then show ?thesis unfolding Cons by (simp only: ktl)
    next
      case newline
      then have "scanCSV rs row cur inQ (ch # rest)
                   = scanCSV (pushRow rs (row @ [cur])) [] [] inQ rest" for rs
        by auto
      then show ?thesis unfolding Cons by (simp only: k)
    next
      case plain
      then have "scanCSV rs row cur inQ (ch # rest) = scanCSV rs row (cur @ [ch]) inQ rest" for rs
        by auto
      then show ?thesis unfolding Cons by (simp only: ih[of rows])
    qed
  qed
qed

lemma scanCSV_line_break:
  "\<not> quotedAfter inQ t1 \<Longrightarrow>
   scanCSV rows row cur inQ (t1 @ LF # t2) = scanCSV (scanCSV rows row cur inQ t1) [] [] False t2"
proof (induction "length t1" arbitrary: rows row cur inQ t1 rule: less_induct)
  case less
  show ?case
  proof (cases t1)
    case Nil
    with less.prems have "\<not> inQ" by simp
    then show ?thesis using Nil by (auto simp: csv_chars pushRow_def)
  next
    case (Cons ch rest)
    have ih: "\<not> quotedAfter c rest \<Longrightarrow>
              scanCSV rs a b c (rest @ LF # t2) = scanCSV (scanCSV rs a b c rest) [] [] False t2"
      for rs a b c
      using less.hyps[of rest] Cons by simp
    have ihtl: "\<not> quotedAfter c (tl rest) \<Longrightarrow>
              scanCSV rs a b c (tl rest @ LF # t2) = scanCSV (scanCSV rs a b c (tl rest)) [] [] False t2"
      for rs a b c
      using less.hyps[of "tl rest"] Cons by simp
    show ?thesis
    proof (cases "rest = []")
      case True
      with less.prems Cons show ?thesis
        by (auto simp: csv_chars pushRow_def split: if_splits)
    next
      case False
      then have hdtl: "hd (rest @ LF # t2) = hd rest" "tl (rest @ LF # t2) = tl rest @ LF # t2"
        by simp_all
      have skip: "quotedAfter c (tl rest) = quotedAfter c rest" if "hd rest = LF" for c
        using that False by (cases rest) (auto simp: csv_chars)
      from less.prems Cons False show ?thesis
        using ih ihtl skip by (auto simp: hdtl csv_chars split: if_splits)
    qed
  qed
qed

text \<open>
  The tokenizer keeps the order of the text: where a text is cut at a line feed outside
  quotes, its rows are the rows of the part before the cut followed by the rows of the
  part after it.
\<close>

lemma parseCSVStream_line_break:
  "\<not> quotedAfter False t1 \<Longrightarrow>
   parseCSVStream (t1 @ LF # t2) = parseCSVStream t1 @ parseCSVStream t2"
  using scanCSV_line_break[of False t1 "[]" "[]" "[]" t2]
    scanCSV_acc[of "scanCSV [] [] [] False t1" "[]" "[]" False t2]
  by (simp add: parseCSVStream_def)


lemma reduceRows_acc:
  "reduceRows H out r rows =
     out @ map (\<lambda>i. the (rowQuestion H (r + i) (rows ! i)))
               (filter (\<lambda>i. rowQuestion H (r + i) (rows ! i) \<noteq> None) [0..<length rows])"
proof (induction rows arbitrary: out r)
  case Nil
  show ?case by simp
next
  case (Cons row rows)
  have upt: "[0..<length (row # rows)] = 0 # map Suc [0..<length rows]"
    by (simp add: upt_conv_Cons map_Suc_upt del: upt_Suc)
  show ?case
    unfolding upt
    by (cases "rowQuestion H r row") (simp_all add: Cons.IH filter_map comp_def)
qed

text \<open>
  C10: \<open>parseCSV\<close> keeps the order of the rows. With \<open>rows\<close> the data rows of the
  tokenized text, which the tokenizer emits in the order of the text, the records
  returned are those of the accepted rows (the rows the callback does not skip), taken
  at the increasing row indices \<open>0, 1, ...\<close>: every accepted row gives one record, and
  the record of an earlier row comes before the record of a later one.
\<close>

theorem parseCSV_keeps_row_order:
  assumes "H = csvHeader (parseCSVStream text)" and "rows = tl (parseCSVStream text)"
    and "set requiredCols \<subseteq> set H"
  shows "parseCSV text =
           map (\<lambda>i. the (rowQuestion H i (rows ! i)))
               (filter (\<lambda>i. rowQuestion H i (rows ! i) \<noteq> None) [0..<length rows])"
proof -
  from assms have "parseCSVStream text \<noteq> []"
    by (auto simp: csvHeader_def requiredCols_def)
  with assms show ?thesis
    by (auto simp: parseCSV_def Let_def list_ex_iff indexOf_neg_iff reduceRows_acc)
qed

text \<open>
  A bank of four data rows and a blank line: the rows at indices 1 and 3 are accepted
  and give the records \<open>U2\<close> and \<open>U4\<close>, in that order.
\<close>

theorem parseCSV_keeps_row_order_witness:
  "set requiredCols \<subseteq> set (csvHeader (parseCSVStream mixedBank))
   \<and> filter (\<lambda>i. rowQuestion (csvHeader (parseCSVStream mixedBank)) i
                       (tl (parseCSVStream mixedBank) ! i) \<noteq> None)
            [0..<length (tl (parseCSVStream mixedBank))] = [1, 3]
   \<and> map qid (parseCSV mixedBank) = [''U2'', ''U4'']"
proof -
  have hdr: "csvHeader (parseCSVStream mixedBank)
               = [''domain'', ''question'', ''a'', ''b'', ''c'', ''d'', ''correct'', ''explanation'']"
    by code_simp
  have req: "set requiredCols \<subseteq> set (csvHeader (parseCSVStream mixedBank))"
    unfolding hdr by (simp add: requiredCols_def)
  have acc: "filter (\<lambda>i. rowQuestion (csvHeader (parseCSVStream mixedBank)) i
                           (tl (parseCSVStream mixedBank) ! i) \<noteq> None)
                [0..<length (tl (parseCSVStream mixedBank))] = [1, 3]"
    by code_simp
  have ids: "map (\<lambda>i. qid (the (rowQuestion (csvHeader (parseCSVStream mixedBank)) i
                                   (tl (parseCSVStream mixedBank) ! i)))) [1, 3]
               = [''U2'', ''U4'']"
    by code_simp
  have "map qid (parseCSV mixedBank) = [''U2'', ''U4'']"
    unfolding parseCSV_keeps_row_order[OF refl refl req] acc using ids by simp
  with req acc show ?thesis by (intro conjI)
qed

text \<open>
  C9: the explanation and the reference of every accepted row are trimmed of the white
  space around them, and are the empty string when the column is absent or the cell is
  empty. The code does the second and not the first. At a bank whose explanation cell is
  padded with spaces the record keeps the cell as it was tokenized, untrimmed
  (\<^verbatim>\<open>explanation: ex >= 0 ? (row[ex] || "") : ""\<close> has no \<^verbatim>\<open>trim()\<close>, where every
  other field has one); the reference column is absent and the field is the empty
  string.
\<close>

theorem parseCSV_explanation_untrimmed:
  "map explanation (parseCSV paddedExplanation) = [''  padded '']
   \<and> map reference (parseCSV paddedExplanation) = [[]]
   \<and> trim ''  padded '' = ''padded''"
  by code_simp


section \<open>The xorshift shuffle: permutation and determinism\<close>

lemma pick_le: "pick s i \<le> i"
proof -
  have "uint s < 2 ^ 32"
    using uint_bounded[of s] by simp
  moreover have "0 \<le> uint s"
    by simp
  ultimately have "uint s * (int i + 1) < 2 ^ 32 * (int i + 1)"
    by (intro mult_strict_right_mono) auto
  then have "(uint s * (int i + 1)) div 2 ^ 32 < int i + 1"
    by (simp add: div_less_iff_less_mult mult.commute)
  then show ?thesis
    by (simp add: pick_def)
qed

lemma shuffleLoop_mset: "k < length a \<Longrightarrow> mset (shuffleLoop k s a) = mset a"
proof (induction k arbitrary: s a)
  case 0
  show ?case by simp
next
  case (Suc k)
  let ?s = "xorshift s"
  let ?j = "pick ?s (Suc k)"
  have j: "?j < length a"
    using pick_le[of ?s "Suc k"] Suc.prems by simp
  have sw: "mset (a[Suc k := a ! ?j, ?j := a ! Suc k]) = mset a"
    using Suc.prems j by (simp add: mset_swap)
  have "mset (shuffleLoop k ?s (a[Suc k := a ! ?j, ?j := a ! Suc k]))
          = mset (a[Suc k := a ! ?j, ?j := a ! Suc k])"
    using Suc.prems by (intro Suc.IH) simp
  with sw show ?case
    by (simp add: Let_def)
qed

text \<open>
  The xorshift \<open>shuffle\<close> returns a permutation of its input, for every seed and without
  one; the input is a value and is not changed.
\<close>

lemma shuffle_mset: "mset (shuffle arr sd drawn) = mset arr"
proof (cases arr)
  case Nil
  then show ?thesis
    by (simp add: shuffle_def)
next
  case (Cons x xs)
  then have "length arr - 1 < length arr"
    by simp
  then show ?thesis
    by (simp add: shuffle_def Let_def shuffleLoop_mset)
qed

lemma shuffle_length: "length (shuffle arr sd drawn) = length arr"
  using shuffle_mset[of arr sd drawn] by (metis size_mset)

text \<open>
  With a seed supplied, the xorshift \<open>shuffle\<close> does not read the random source: the
  result is a function of the list and the seed, for every seed.
\<close>

lemma shuffle_seeded_deterministic: "shuffle arr (Some k) drawn = shuffle arr (Some k) drawn'"
  by (simp add: shuffle_def)

section \<open>The linear congruential shuffle\<close>

lemma lcgLoop_seeded: "lcgLoop m True rand us n arr = lcgLoop m True rand us' n' arr"
  by (induction m arbitrary: rand arr) (simp_all add: Let_def)

text \<open>With a seed other than 0 the result does not depend on \<^verbatim>\<open>Math.random\<close>.\<close>

lemma shuffleLCG_seeded_deterministic:
  "k \<noteq> 0 \<Longrightarrow> shuffleLCG arr (Some k) us = shuffleLCG arr (Some k) us'"
  by (simp add: shuffleLCG_def lcgLoop_seeded[of _ _ us 0 _ us' 0])








text \<open>
  C3: two calls of shuffle with the same list and the same supplied seed return the
  same order, for every seed value. The xorshift shuffle does (lemma
  \<open>shuffle_seeded_deterministic\<close>). The shuffle of src/App.jsx does not at the seed 0:
  the test \<^verbatim>\<open>seed ? random() : Math.random()\<close> takes the supplied seed 0 for a missing
  one, and two calls with the same list and the same seed return different orders when
  \<^verbatim>\<open>Math.random()\<close> returns 0 in the one and 0.5 in the other.
\<close>

theorem shuffleLCG_seed_zero_not_deterministic:
  "elems (shuffleLCG [1, 2, 3 :: nat] (Some 0) (\<lambda>n. 0)) = [Some 2, Some 3, Some 1]
   \<and> elems (shuffleLCG [1, 2, 3 :: nat] (Some 0) (\<lambda>n. 4503599627370496))
       = [Some 1, Some 3, Some 2]
   \<and> shuffleLCG [1, 2, 3 :: nat] (Some 0) (\<lambda>n. 0)
       \<noteq> shuffleLCG [1, 2, 3 :: nat] (Some 0) (\<lambda>n. 4503599627370496)"
proof -
  have a: "elems (shuffleLCG [1, 2, 3 :: nat] (Some 0) (\<lambda>n. 0)) = [Some 2, Some 3, Some 1]"
    by code_simp
  have b: "elems (shuffleLCG [1, 2, 3 :: nat] (Some 0) (\<lambda>n. 4503599627370496))
             = [Some 1, Some 3, Some 2]"
    by code_simp
  from a b have "elems (shuffleLCG [1, 2, 3 :: nat] (Some 0) (\<lambda>n. 0))
                   \<noteq> elems (shuffleLCG [1, 2, 3 :: nat] (Some 0) (\<lambda>n. 4503599627370496))"
    by simp
  then have "shuffleLCG [1, 2, 3 :: nat] (Some 0) (\<lambda>n. 0)
               \<noteq> shuffleLCG [1, 2, 3 :: nat] (Some 0) (\<lambda>n. 4503599627370496)"
    by auto
  with a b show ?thesis
    by (intro conjI)
qed




text \<open>
  The bound on the seed is needed. At the seed \<open>-1\<close> the remainder \<^verbatim>\<open>%\<close> keeps the sign
  of the seed, the index \<open>i\<close> is \<open>-1\<close> at every step, and the swap writes \<^verbatim>\<open>undefined\<close>
  into the array and the element into the property \<open>-1\<close>. No call of the program passes
  such a seed: the function is private to src/App.jsx, whose calls pass the state
  \<^verbatim>\<open>seed\<close>, set once to \<^verbatim>\<open>Date.now()\<close>, and \<^verbatim>\<open>Math.floor(Math.random() * 2147483647)\<close>.
\<close>

lemma shuffleLCG_negative_seed:
  "elems (shuffleLCG [1, 2, 3 :: nat] (Some (- 1)) (\<lambda>n. 0)) = [Some 2, Some 3, None]
   \<and> props (shuffleLCG [1, 2, 3 :: nat] (Some (- 1)) (\<lambda>n. 0)) (- 1) = Some 1
   \<and> mset (elems (shuffleLCG [1, 2, 3 :: nat] (Some (- 1)) (\<lambda>n. 0)))
       \<noteq> mset (map Some [1, 2, 3])"
proof -
  have a: "elems (shuffleLCG [1, 2, 3 :: nat] (Some (- 1)) (\<lambda>n. 0)) = [Some 2, Some 3, None]"
    by code_simp
  have b: "props (shuffleLCG [1, 2, 3 :: nat] (Some (- 1)) (\<lambda>n. 0)) (- 1) = Some 1"
    by code_simp
  have "None \<in># mset [Some 2, Some 3, None :: nat option]"
    by simp
  moreover have "None \<notin># mset (map Some [1, 2, 3 :: nat])"
    by simp
  ultimately have "mset [Some 2, Some 3, None :: nat option] \<noteq> mset (map Some [1, 2, 3])"
    by metis
  with a b show ?thesis
    by simp
qed



section \<open>Choice permutation\<close>

lemma perm4_cases:
  assumes "mset idxs = mset [0, 1, 2, 3::nat]"
  shows "length idxs = 4" and "set idxs = {0, 1, 2, 3}"
proof -
  from assms have "size (mset idxs) = size (mset [0, 1, 2, 3::nat])"
    by simp
  then show "length idxs = 4"
    by simp
  from assms have "set_mset (mset idxs) = set_mset (mset [0, 1, 2, 3::nat])"
    by simp
  then show "set idxs = {0, 1, 2, 3}"
    by auto
qed

lemma map4_nth: "j < 4 \<Longrightarrow> map f [0, 1, 2, 3::nat] ! j = f j"
proof -
  assume "j < 4"
  then consider "j = 0" | "j = 1" | "j = 2" | "j = 3"
    by linarith
  then show ?thesis
    by cases simp_all
qed

text \<open>Every order \<^verbatim>\<open>beginSession\<close> draws is a permutation of the four indices.\<close>

lemma shuffle_indices_perm: "mset (shuffle [0, 1, 2, 3 :: nat] sd drawn) = mset [0, 1, 2, 3]"
  by (rule shuffle_mset)

text \<open>
  C4: for every question with 4 choices and a correct index \<open>k\<close> in \<open>{0,1,2,3}\<close>, and
  every order \<open>idxs\<close> that is a permutation of the four indices, the record that session
  setup builds has a correct index in \<open>{0,1,2,3}\<close> again, and the choice at the new
  correct index is the choice that was at the old one.
\<close>

theorem permuteChoices_keeps_correct_text:
  assumes perm: "mset idxs = mset [0, 1, 2, 3]"
    and four: "length (choices q) = 4"
    and ans: "answerIndex q = Num k" and lo: "0 \<le> k" and hi: "k < 4"
  shows "\<exists>k'. answerIndex (permuteChoices q idxs) = Num k' \<and> 0 \<le> k' \<and> k' < 4
              \<and> choices (permuteChoices q idxs) ! nat k' = choices q ! nat k"
proof -
  let ?j = "indexOf (map int idxs) k"
  have len: "length idxs = 4" and st: "set idxs = {0, 1, 2, 3}"
    using perm4_cases[OF perm] by auto
  have "nat k \<in> set idxs"
    using lo hi st by (auto simp: nat_less_iff)
  then have "int (nat k) \<in> int ` set idxs"
    by (rule imageI)
  with lo have mem: "k \<in> set (map int idxs)"
    by simp
  from indexOf_mem[OF mem]
  have j0: "0 \<le> ?j" and j1: "nat ?j < 4" and j2: "map int idxs ! nat ?j = k"
    using len by auto
  from j1 j2 len have idx: "idxs ! nat ?j = nat k"
    by simp
  have kk: "nat k < length (choices q)"
    using hi four by simp
  have n1: "nthOpt idxs (nat ?j) = Some (nat k)"
    using j1 len idx by (simp add: nthOpt_def)
  have n2: "nthOpt (choices q) (nat k) = Some (choices q ! nat k)"
    using kk by (simp add: nthOpt_def)
  define F where "F = (\<lambda>i. case nthOpt idxs i of
                          None \<Rightarrow> None
                        | Some k \<Rightarrow> (case nthOpt (choices q) k of None \<Rightarrow> None | Some c \<Rightarrow> c))"
  have c: "choices (permuteChoices q idxs) = map F [0, 1, 2, 3]"
    by (simp add: permuteChoices_def F_def)
  have "map F [0, 1, 2, 3] ! nat ?j = F (nat ?j)"
    by (rule map4_nth[OF j1])
  also have "\<dots> = choices q ! nat k"
    by (simp add: F_def n1 n2)
  finally have "choices (permuteChoices q idxs) ! nat ?j = choices q ! nat k"
    by (simp only: c)
  moreover have "answerIndex (permuteChoices q idxs) = Num ?j"
    using ans by (simp add: permuteChoices_def)
  moreover have "?j < 4"
    using j1 j0 by simp
  ultimately show ?thesis
    using j0 by blast
qed

text \<open>
  The order drawn with the seed 123456789 is \<open>[3, 0, 1, 2]\<close>: the correct choice \<open>C\<close>
  of the sample question moves from index 2 to index 3.
\<close>

theorem permuteChoices_keeps_correct_text_witness:
  "mset (shuffle [0, 1, 2, 3 :: nat] (Some 123456789) 0) = mset [0, 1, 2, 3]
   \<and> length (choices (demoQ ''Q1'')) = 4
   \<and> answerIndex (demoQ ''Q1'') = Num 2
   \<and> (\<exists>k'. answerIndex (permuteChoices (demoQ ''Q1'') (shuffle [0, 1, 2, 3] (Some 123456789) 0))
               = Num k' \<and> 0 \<le> k' \<and> k' < 4
            \<and> choices (permuteChoices (demoQ ''Q1'') (shuffle [0, 1, 2, 3] (Some 123456789) 0))
                 ! nat k' = Some ''C'')"
proof -
  have p: "mset (shuffle [0, 1, 2, 3 :: nat] (Some 123456789) 0) = mset [0, 1, 2, 3]"
    by (rule shuffle_indices_perm)
  have four: "length (choices (demoQ ''Q1'')) = 4"
    by (simp add: demoQ_def)
  have ans: "answerIndex (demoQ ''Q1'') = Num 2"
    by (simp add: demoQ_def)
  have c: "choices (demoQ ''Q1'') ! nat 2 = Some ''C''"
    by (simp add: demoQ_def numeral_2_eq_2)
  from permuteChoices_keeps_correct_text[OF p four ans] c p four ans
  show ?thesis
    by simp
qed

section \<open>Session size\<close>

lemma jsTrunc_of_int: "jsTrunc (of_int k) = k"
  by (simp add: jsTrunc_def)

lemma floor_min_nat: "\<lfloor>min x (of_nat n :: rat)\<rfloor> = min \<lfloor>x\<rfloor> (int n)"
proof (cases "x \<le> of_nat n")
  case True
  then have "\<lfloor>x\<rfloor> \<le> \<lfloor>(of_nat n :: rat)\<rfloor>"
    by (rule floor_mono)
  then have "\<lfloor>x\<rfloor> \<le> int n"
    by simp
  with True show ?thesis
    by (simp add: min_def)
next
  case False
  then have "of_nat n \<le> x"
    by simp
  then have "\<lfloor>(of_nat n :: rat)\<rfloor> \<le> \<lfloor>x\<rfloor>"
    by (rule floor_mono)
  then have "int n \<le> \<lfloor>x\<rfloor>"
    by simp
  with False show ?thesis
    by (simp add: min_def)
qed

lemma slice0_length:
  assumes "0 \<le> e"
  shows "int (length (slice0 xs e)) = min \<lfloor>e\<rfloor> (int (length xs))"
proof -
  from assms have "\<not> e < 0"
    by (simp only: not_less)
  then have t: "jsTrunc e = \<lfloor>e\<rfloor>"
    unfolding jsTrunc_def by (simp only: if_False)
  from assms have f: "0 \<le> \<lfloor>e\<rfloor>"
    by simp
  then have "\<not> \<lfloor>e\<rfloor> < 0"
    by (simp only: not_less)
  then have "slice0 xs e = take (nat (min \<lfloor>e\<rfloor> (int (length xs)))) xs"
    unfolding slice0_def Let_def t by (simp only: if_False)
  moreover have "0 \<le> min \<lfloor>e\<rfloor> (int (length xs))"
    using f by simp
  ultimately show ?thesis
    by simp
qed

text \<open>
  The length of the session for every size that is not negative, with a fraction or
  without: the size is truncated before it is compared with the pool.
\<close>

lemma startSession_length:
  assumes "0 \<le> sessionSize s"
  shows "int (length (sessionQs (startSession s now)))
           = min \<lfloor>sessionSize s\<rfloor> (int (length (filtered s)))"
proof -
  let ?pool = "shuffle (filtered s) (Some (seed s)) 0"
  let ?n = "length (filtered s)"
  have len: "length ?pool = ?n"
    by (rule shuffle_length)
  have q: "sessionQs (startSession s now) = slice0 ?pool (min (sessionSize s) (of_nat ?n))"
    by (simp add: startSession_def Let_def len)
  have nn: "0 \<le> min (sessionSize s) (of_nat ?n)"
    using assms by simp
  have "int (length (slice0 ?pool (min (sessionSize s) (of_nat ?n))))
          = min \<lfloor>min (sessionSize s) (of_nat ?n)\<rfloor> (int ?n)"
    using slice0_length[OF nn, of ?pool] by (simp only: len)
  also have "\<dots> = min (min \<lfloor>sessionSize s\<rfloor> (int ?n)) (int ?n)"
    by (simp only: floor_min_nat)
  also have "\<dots> = min \<lfloor>sessionSize s\<rfloor> (int ?n)"
    by simp
  finally show ?thesis
    by (simp only: q)
qed

text \<open>
  C6, as amended: for every filtered pool and every requested session size that is an
  integer and not negative, the session started has \<open>min size (length pool)\<close>
  questions.
\<close>

theorem startSession_size:
  assumes "0 \<le> sessionSize s" and "sessionSize s \<in> \<int>"
  shows "of_nat (length (sessionQs (startSession s now)))
           = min (sessionSize s) (of_nat (length (filtered s)))"
proof -
  from assms(2) obtain k where k: "sessionSize s = of_int k"
    by (auto elim: Ints_cases)
  have "int (length (sessionQs (startSession s now))) = min k (int (length (filtered s)))"
    using startSession_length[OF assms(1), of now] by (simp add: k)
  then have "(of_int (int (length (sessionQs (startSession s now)))) :: rat)
               = of_int (min k (int (length (filtered s))))"
    by (simp only:)
  also have "\<dots> = min (of_int k) (of_int (int (length (filtered s))))"
    by (rule of_int_min)
  finally show ?thesis
    by (simp add: k)
qed

lemma filtered_threeQuestionApp: "length (filtered (threeQuestionApp requested)) = 3"
  by (simp add: threeQuestionApp_def filtered_def initialApp_def demoQ_def allowed_def)

lemma sessionSize_threeQuestionApp: "sessionSize (threeQuestionApp requested) = requested"
  by (simp add: threeQuestionApp_def)

text \<open>A pool of three questions and the requested size 2 give a session of two.\<close>

theorem startSession_size_witness:
  "0 \<le> sessionSize (threeQuestionApp 2)
   \<and> sessionSize (threeQuestionApp 2) \<in> \<int>
   \<and> length (filtered (threeQuestionApp 2)) = 3
   \<and> length (sessionQs (startSession (threeQuestionApp 2) 1000)) = 2"
proof -
  have nn: "0 \<le> sessionSize (threeQuestionApp 2)"
    by (simp add: sessionSize_threeQuestionApp)
  have whole: "sessionSize (threeQuestionApp 2) \<in> \<int>"
    by (simp add: sessionSize_threeQuestionApp)
  from startSession_size[OF nn whole, of 1000]
  have "(of_nat (length (sessionQs (startSession (threeQuestionApp 2) 1000))) :: rat) = of_nat 2"
    by (simp add: sessionSize_threeQuestionApp filtered_threeQuestionApp)
  then have "length (sessionQs (startSession (threeQuestionApp 2) 1000)) = 2"
    by (simp only: of_nat_eq_iff)
  with nn whole filtered_threeQuestionApp[of 2] show ?thesis
    by (intro conjI)
qed

text \<open>
  C6 as it is stated fails at a negative size and at a size with a fraction. For a pool
  of three, \<^verbatim>\<open>pool.slice(0, -1)\<close> drops the last question and gives a session of two,
  not of \<open>min (-1) 3\<close>; \<^verbatim>\<open>pool.slice(0, 1.5)\<close> gives a session of one, not of
  \<open>min 1.5 3\<close>.
\<close>

theorem startSession_size_counterexample:
  "length (filtered (threeQuestionApp (- 1))) = 3
   \<and> length (sessionQs (startSession (threeQuestionApp (- 1)) 1000)) = 2
   \<and> of_nat (length (sessionQs (startSession (threeQuestionApp (- 1)) 1000)))
       \<noteq> min (sessionSize (threeQuestionApp (- 1)))
               (of_nat (length (filtered (threeQuestionApp (- 1)))))
   \<and> length (filtered (threeQuestionApp (3 / 2))) = 3
   \<and> length (sessionQs (startSession (threeQuestionApp (3 / 2)) 1000)) = 1
   \<and> of_nat (length (sessionQs (startSession (threeQuestionApp (3 / 2)) 1000)))
       \<noteq> min (sessionSize (threeQuestionApp (3 / 2)))
               (of_nat (length (filtered (threeQuestionApp (3 / 2)))))"
proof -
  have neg: "length (sessionQs (startSession (threeQuestionApp (- 1)) 1000)) = 2"
    by (simp add: startSession_def slice0_def jsTrunc_def Let_def shuffle_length
          sessionSize_threeQuestionApp filtered_threeQuestionApp)
  have fl: "\<lfloor>3 / 2 :: rat\<rfloor> = 1"
    by (simp add: floor_eq_iff)
  have "int (length (sessionQs (startSession (threeQuestionApp (3 / 2)) 1000))) = 1"
    using startSession_length[of "threeQuestionApp (3 / 2)" 1000]
    by (simp add: sessionSize_threeQuestionApp filtered_threeQuestionApp fl)
  then have frac: "length (sessionQs (startSession (threeQuestionApp (3 / 2)) 1000)) = 1"
    by simp
  show ?thesis
    by (simp add: neg frac sessionSize_threeQuestionApp filtered_threeQuestionApp)
qed

section \<open>Practice mode: the recorded result\<close>

text \<open>
  What a hit in practice mode records, in every state: \<open>tries\<close> is the number of
  clicks made before the hit (and 1 when there is none), so \<open>firstTryCorrect\<close> is
  recorded as true after one miss as well, while the state variable \<open>firstTryCorrect\<close>
  is true only when no click went before.
\<close>

lemma onChoice_practice_hit:
  assumes "mode s = Practice" and "currentQ s = Some q" and "answerIndex q = Num c"
  shows "\<exists>s' r. onChoice s now c = Inr s' \<and> results s' (qid q) = Some r
           \<and> res_tries r = max 1 (length (chosenHistory s))
           \<and> res_firstTryCorrect r = (length (chosenHistory s) \<le> 1)
           \<and> firstTryCorrect s' = Some (length (chosenHistory s) = 0)"
proof -
  have "chosenHistory s \<noteq> [] \<Longrightarrow> 1 \<le> length (chosenHistory s)"
    by (cases "chosenHistory s") simp_all
  then show ?thesis
    using assms by (auto simp: onChoice_def recordResult_def Let_def max_def)
qed

text \<open>
  C1: in practice mode, for a question whose correct index is 2, a miss on index 0
  followed by a hit on index 2 records \<open>tries = 2\<close> and \<open>firstTryCorrect = false\<close>, and
  a hit on index 2 at the first click records \<open>tries = 1\<close> and \<open>firstTryCorrect = true\<close>.
  The code does the second and not the first. In a practice session of one such
  question, the click on index 0 misses; the click on index 2 is handled by the next
  render, whose \<open>chosenHistory\<close>
  is \<open>[0]\<close>: \<^verbatim>\<open>recordResult\<close> computes \<^verbatim>\<open>Math.max(1, chosenHistory.length || 1)\<close> from it,
  before the hit is appended, and records \<open>tries = 1\<close> and \<open>firstTryCorrect = true\<close>.
  The state variable \<open>firstTryCorrect\<close>, set by \<^verbatim>\<open>setFirstTryCorrect(chosenHistory.length === 0)\<close>
  in the same handler, is \<open>false\<close>. A hit at the first click records \<open>tries = 1\<close> and
  \<open>firstTryCorrect = true\<close> as well.
\<close>

theorem onChoice_miss_then_hit:
  "recorded (clicks oneQuestionSession [(1500, 0), (2000, 2)]) ''Q1''
     = Some \<lparr> res_id = ''Q1'', res_firstTryCorrect = True, res_tries = 1,
              res_timeMs = 1000, res_chosenHistory = [0] \<rparr>
   \<and> (case clicks oneQuestionSession [(1500, 0), (2000, 2)] of
        Inl e \<Rightarrow> None | Inr s \<Rightarrow> firstTryCorrect s) = Some False
   \<and> recorded (clicks oneQuestionSession [(1500, 2)]) ''Q1''
     = Some \<lparr> res_id = ''Q1'', res_firstTryCorrect = True, res_tries = 1,
              res_timeMs = 500, res_chosenHistory = [] \<rparr>"
  by code_simp


section \<open>Export of a one-question session\<close>

lemma textLines_no_LF: "LF \<notin> set t \<Longrightarrow> textLines t = [t]"
  by (induction t) auto

lemma textLines_split: "LF \<notin> set a \<Longrightarrow> textLines (a @ LF # b) = a # textLines b"
  by (induction a) auto

lemma digitChar_digit: "d < 10 \<Longrightarrow> digitChar d \<in> set decimalDigits"
  unfolding digitChar_def by (rule nth_mem) (simp add: decimalDigits_def)

lemma digitsOf_digits: "set (digitsOf n) \<subseteq> set decimalDigits"
proof (induction n rule: digitsOf.induct)
  case (1 n)
  show ?case
  proof (cases "n < 10")
    case True
    then show ?thesis
      using digitChar_digit[of n] by (subst digitsOf.simps) simp
  next
    case False
    have "n mod 10 < 10"
      by simp
    from digitChar_digit[OF this] 1[OF False] False show ?thesis
      by (subst digitsOf.simps) simp
  qed
qed

lemma StringOfInt_chars: "set (StringOfInt k) \<subseteq> insert (CHR ''-'') (set decimalDigits)"
  using digitsOf_digits[of "nat k"] digitsOf_digits[of "nat (- k)"]
  by (auto simp: StringOfInt_def)

lemma control_not_decimal:
  "x = LF \<or> x = CR \<Longrightarrow> x \<noteq> CHR ''-'' \<and> x \<notin> set decimalDigits"
  by (auto simp: decimalDigits_def csv_chars)

lemma StringOfInt_no_control: "x = LF \<or> x = CR \<Longrightarrow> x \<notin> set (StringOfInt k)"
  using StringOfInt_chars[of k] control_not_decimal[of x] by blast

lemma StringOfBool_no_control: "x = LF \<or> x = CR \<Longrightarrow> x \<notin> set (StringOfBool b)"
  by (auto simp: StringOfBool_def csv_chars)

lemma set_join: "set (join sep xs) \<subseteq> set sep \<union> \<Union> (set ` set xs)"
  by (induction sep xs rule: join.induct) auto

lemma set_csvCell: "set (csvCell cell) \<subseteq> insert DQ (set cell)"
  by (auto simp: csvCell_def doubleQuotes_def split: if_splits)

lemma set_csvLine: "set (csvLine cells) \<subseteq> {DQ, COMMA} \<union> \<Union> (set ` set cells)"
  using set_join[of "[COMMA]" "map csvCell cells"] set_csvCell
  by (fastforce simp: csvLine_def)

lemma csvLine_no_LF: "\<forall>c\<in>set cells. LF \<notin> set c \<Longrightarrow> LF \<notin> set (csvLine cells)"
  using set_csvLine[of cells] by (auto simp: csv_chars)

lemma history_no_control:
  "x = LF \<or> x = CR \<Longrightarrow> x \<notin> set (join ''|'' (map StringOfInt xs))"
proof
  assume x: "x = LF \<or> x = CR" and "x \<in> set (join ''|'' (map StringOfInt xs))"
  with set_join[of "''|''" "map StringOfInt xs"]
  have "x \<in> set ''|'' \<or> (\<exists>k. x \<in> set (StringOfInt k))"
    by auto
  with StringOfInt_no_control[OF x] x show False
    by (auto simp: csv_chars)
qed

lemma rowOK_exportHeader: "rowOK exportHeader"
  by (simp add: rowOK_def cellOK_def exportHeader_def csv_chars)

lemma exportHeader_no_LF: "\<forall>c\<in>set exportHeader. LF \<notin> set c"
  by (simp add: exportHeader_def csv_chars)

text \<open>
  C7, as amended: for every session of exactly one question \<open>q\<close> that has a recorded
  result and a correct choice with the text \<open>c\<close>, the rows handed to the serializer are
  exactly 2, the header row and one data row, and the cell of the data row in the column
  \<open>correct\<close> is the literal text \<open>c\<close>. The exported text has exactly 2 lines when the
  id, the domain, the question text, the correct choice and the explanation hold no line
  feed (a cell with a line feed is written in quotes over several lines). Tokenizing the
  exported text gives back the 2 rows, and so the literal text \<open>c\<close> in the column
  \<open>correct\<close>, when each of those five cells that holds a carriage return also holds a
  comma, a double quote or a line feed.
\<close>

theorem exportSummary_one_question:
  assumes sess: "sessionQs s = [q]" and res: "results s (qid q) = Some r"
    and ans: "answerIndex q = Num k" and lo: "0 \<le> k"
    and chosen: "nthOpt (choices q) (nat k) = Some (Some c)"
  shows "exportRows s = [exportHeader, exportRow (results s) q]
       \<and> exportHeader ! 7 = ''correct''
       \<and> exportRow (results s) q ! 7 = c
       \<and> (LF \<notin> set (qid q) \<union> set (domain q) \<union> set (question q) \<union> set c \<union> set (explanation q)
            \<longrightarrow> length (textLines (exportSummary s)) = 2)
       \<and> (list_all cellOK [qid q, domain q, question q, c, explanation q]
            \<longrightarrow> parseCSVStream (exportSummary s) = [exportHeader, exportRow (results s) q])"
proof -
  let ?row = "exportRow (results s) q"
  have rows: "exportRows s = [exportHeader, ?row]"
    by (simp add: exportRows_def sess)
  have hd7: "exportHeader ! 7 = ''correct''"
    by (simp add: exportHeader_def)
  have ct: "correctText q = c"
    using ans lo chosen by (simp add: correctText_def)
  have row: "?row = [qid q, domain q, StringOfBool (res_firstTryCorrect r),
                     StringOfInt (int (res_tries r)), StringOfInt (res_timeMs r),
                     join ''|'' (map StringOfInt (res_chosenHistory r)),
                     question q, c, explanation q]"
    by (simp add: exportRow_def res ct)
  have r7: "?row ! 7 = c"
    unfolding row by simp
  have gen: "x \<notin> set (StringOfBool (res_firstTryCorrect r))
           \<and> x \<notin> set (StringOfInt (int (res_tries r)))
           \<and> x \<notin> set (StringOfInt (res_timeMs r))
           \<and> x \<notin> set (join ''|'' (map StringOfInt (res_chosenHistory r)))"
    if "x = LF \<or> x = CR" for x
    using StringOfBool_no_control[OF that] StringOfInt_no_control[OF that]
      history_no_control[OF that]
    by simp
  have lines: "length (textLines (exportSummary s)) = 2"
    if "LF \<notin> set (qid q) \<union> set (domain q) \<union> set (question q) \<union> set c \<union> set (explanation q)"
  proof -
    have "\<forall>cell\<in>set ?row. LF \<notin> set cell"
      unfolding row using that gen[of LF] by simp
    then have b: "LF \<notin> set (csvLine ?row)"
      by (rule csvLine_no_LF)
    have a: "LF \<notin> set (csvLine exportHeader)"
      by (rule csvLine_no_LF[OF exportHeader_no_LF])
    have "exportSummary s = csvLine exportHeader @ LF # csvLine ?row"
      by (simp add: exportSummary_def rows toCSV_def)
    then show ?thesis
      by (simp add: textLines_split[OF a] textLines_no_LF[OF b])
  qed
  have reparse: "parseCSVStream (exportSummary s) = [exportHeader, ?row]"
    if "list_all cellOK [qid q, domain q, question q, c, explanation q]"
  proof -
    have "list_all cellOK ?row"
      unfolding row using that gen[of CR] by (simp add: cellOK_def)
    moreover have "list_ex (\<lambda>c. c \<noteq> []) ?row"
      unfolding row by (simp add: StringOfBool_def)
    ultimately have "rowOK ?row"
      by (simp add: rowOK_def)
    with rowOK_exportHeader have "list_all rowOK [exportHeader, ?row]"
      by simp
    from parseCSVStream_toCSV[OF this] show ?thesis
      by (simp add: exportSummary_def rows)
  qed
  from rows hd7 r7 lines reparse show ?thesis
    by blast
qed

text \<open>
  The session of the sample question, answered with the correct choice at the first
  click and finished: 2 rows, 2 lines, and \<open>C\<close> in the column \<open>correct\<close>.
\<close>

theorem exportSummary_one_question_witness:
  "finished finishedDemoSession
   \<and> sessionQs finishedDemoSession = [demoQ ''Q1'']
   \<and> results finishedDemoSession ''Q1'' \<noteq> None
   \<and> exportRows finishedDemoSession
       = [exportHeader, exportRow (results finishedDemoSession) (demoQ ''Q1'')]
   \<and> exportRow (results finishedDemoSession) (demoQ ''Q1'') ! 7 = ''C''
   \<and> length (textLines (exportSummary finishedDemoSession)) = 2
   \<and> parseCSVStream (exportSummary finishedDemoSession)
       = [exportHeader, exportRow (results finishedDemoSession) (demoQ ''Q1'')]"
proof -
  let ?r = "\<lparr> res_id = ''Q1'', res_firstTryCorrect = True, res_tries = 1,
              res_timeMs = 500, res_chosenHistory = [] \<rparr>"
  have fin: "finished finishedDemoSession"
    by code_simp
  have sess: "sessionQs finishedDemoSession = [demoQ ''Q1'']"
    by code_simp
  have res: "results finishedDemoSession (qid (demoQ ''Q1'')) = Some ?r"
    by code_simp
  have ans: "answerIndex (demoQ ''Q1'') = Num 2"
    by (simp add: demoQ_def)
  have chosen: "nthOpt (choices (demoQ ''Q1'')) (nat 2) = Some (Some ''C'')"
    by (simp add: demoQ_def nthOpt_def numeral_2_eq_2)
  have noLF: "LF \<notin> set (qid (demoQ ''Q1'')) \<union> set (domain (demoQ ''Q1''))
                   \<union> set (question (demoQ ''Q1'')) \<union> set ''C''
                   \<union> set (explanation (demoQ ''Q1''))"
    by (simp add: demoQ_def csv_chars)
  have ok: "list_all cellOK [qid (demoQ ''Q1''), domain (demoQ ''Q1''),
                             question (demoQ ''Q1''), ''C'', explanation (demoQ ''Q1'')]"
    by (simp add: demoQ_def cellOK_def csv_chars)
  have name: "qid (demoQ ''Q1'') = ''Q1''"
    by (simp add: demoQ_def)
  from exportSummary_one_question[OF sess res ans _ chosen] noLF ok res fin sess
  show ?thesis
    by (simp add: name)
qed

text \<open>
  C7 as it is stated fails for a question whose text holds a line feed. The bank is the
  sample \<open>newlineInField\<close>; its one question is answered and the session finished. The
  serializer writes the question text in quotes with its line feed, and the exported text
  has 3 lines.
\<close>

theorem exportSummary_lines_counterexample:
  "finished finishedNewlineSession
   \<and> map qid (sessionQs finishedNewlineSession) = [''Q4'']
   \<and> map question (sessionQs finishedNewlineSession) = [''Line1'' @ [LF] @ ''Line2'']
   \<and> results finishedNewlineSession ''Q4'' \<noteq> None
   \<and> length (textLines (exportSummary finishedNewlineSession)) = 3"
  by code_simp

end
